theory Spec2Isabelle
  imports Main "HOL-Library.AList"
begin

section \<open>JavaScript values, objects and the store\<close>

text \<open>
  The library manipulates plain data objects: the application state tree, the UI state
  branch \<open>{ components: {...} }\<close>, the per-component state values and the partial updates.
  Objects are held in a store and named by references, so that "a new object" and "the
  same object" are different things in the model as they are at run time.

  Scope of the value model: numbers are integers (no NaN, no fractions), objects are plain
  data objects whose properties are own, enumerable data properties (no prototype chain, no
  accessors), and function values occur only where the source's types put them: the
  \<open>uiStateId\<close> and \<open>uiStateBranchSelector\<close> props and the \<open>dispatch\<close> argument.
\<close>

datatype jsval =
    JUndefined
  | JNull
  | JBool bool
  | JNum int
  | JStr string
  | JRef nat

type_synonym obj = "(string \<times> jsval) list"

type_synonym heap = "obj list"

text \<open>What a thrown exception is: a \<open>TypeError\<close> of the run time (reading a property of
  \<open>undefined\<close> or \<open>null\<close>), or one of the two \<open>new Error(...)\<close> of \<open>utils.ts\<close>:
  "Could not select UI state branch from the store" and "Couldn't find uiStateId prop".\<close>

datatype error = TypeError | BranchNotSelectedError | UiStateIdNotFoundError

definition heap_get :: "heap \<Rightarrow> nat \<Rightarrow> obj" where
  "heap_get h r = (if r < length h then h ! r else [])"

definition alloc :: "heap \<Rightarrow> obj \<Rightarrow> heap \<times> nat" where
  "alloc h ob = (h @ [ob], length h)"

definition lookup :: "obj \<Rightarrow> string \<Rightarrow> jsval option" where
  "lookup ob k = map_of ob k"

text \<open>\<open>!v\<close> is true of the falsy values.\<close>

fun falsy :: "jsval \<Rightarrow> bool" where
  "falsy JUndefined = True"
| "falsy JNull = True"
| "falsy (JBool b) = (\<not> b)"
| "falsy (JNum n) = (n = 0)"
| "falsy (JStr s) = (s = [])"
| "falsy (JRef r) = False"

text \<open>The decimal digits of a number, for property keys and template strings (no
  exponent notation: the numbers of the model are the integers as they are written).\<close>

definition digit_char :: "nat \<Rightarrow> char" where
  "digit_char d = char_of (d + 48)"

fun decimal :: "nat \<Rightarrow> string" where
  "decimal n = (if 9 < n then decimal (n div 10) @ [digit_char (n mod 10)] else [digit_char n])"

declare decimal.simps [simp del]

text \<open>\<open>ToString\<close>, as a computed member access \<open>o[v]\<close> and a template literal
  \<open>`${v}`\<close> apply it.\<close>

fun to_string :: "jsval \<Rightarrow> string" where
  "to_string JUndefined = ''undefined''"
| "to_string JNull = ''null''"
| "to_string (JBool b) = (if b then ''true'' else ''false'')"
| "to_string (JNum n) =
     (if n < 0 then CHR ''-'' # decimal (nat (- n)) else decimal (nat n))"
| "to_string (JStr s) = s"
| "to_string (JRef r) = ''[object Object]''"

text \<open>The own enumerable properties of a value: those of an object; the characters of a
  string under their indices; none for the other primitives.\<close>

fun own_props :: "heap \<Rightarrow> jsval \<Rightarrow> obj" where
  "own_props h (JRef r) = heap_get h r"
| "own_props h (JStr s) = zip (map decimal [0..<length s]) (map (\<lambda>c. JStr [c]) s)"
| "own_props h v = []"

text \<open>Member access \<open>v[k]\<close>: a \<open>TypeError\<close> on \<open>undefined\<close> and \<open>null\<close>; the own
  property of an object, \<open>undefined\<close> when it has none; a character or the length of a
  string; \<open>undefined\<close> on numbers and booleans.\<close>

fun get_prop :: "heap \<Rightarrow> jsval \<Rightarrow> string \<Rightarrow> error + jsval" where
  "get_prop h JUndefined k = Inl TypeError"
| "get_prop h JNull k = Inl TypeError"
| "get_prop h (JRef r) k =
     Inr (case lookup (heap_get h r) k of None \<Rightarrow> JUndefined | Some v \<Rightarrow> v)"
| "get_prop h (JStr s) k =
     Inr (if k = ''length'' then JNum (int (length s))
          else case lookup (own_props h (JStr s)) k of None \<Rightarrow> JUndefined | Some v \<Rightarrow> v)"
| "get_prop h v k = Inr JUndefined"

section \<open>\<open>merge\<close> (connect wrapper utilities)\<close>

text \<open>
  \<^verbatim>\<open>export const merge = (obj1, obj2) => Object.assign({}, obj1, obj2);\<close>

  \<open>Object.assign\<close> copies the own enumerable properties of each source, in order, onto
  the target, and returns the target. A property that the target has is overwritten in
  place, a new one is added after the others. \<open>undefined\<close>, \<open>null\<close>, booleans and
  numbers contribute nothing; a string contributes its characters under their indices.
\<close>

text \<open>An association list stands for the object whose property \<open>k\<close> is what \<open>lookup\<close>
  finds; \<open>AList.clearjunk\<close> enumerates each of its properties once.\<close>

definition assign_props :: "obj \<Rightarrow> obj \<Rightarrow> obj" where
  "assign_props src target = fold (\<lambda>(k, v). AList.update k v) (AList.clearjunk src) target"

definition assign_from :: "nat \<Rightarrow> jsval \<Rightarrow> heap \<Rightarrow> heap" where
  "assign_from t src h = h[t := assign_props (own_props h src) (heap_get h t)]"

definition object_assign :: "heap \<Rightarrow> nat \<Rightarrow> jsval list \<Rightarrow> heap \<times> jsval" where
  "object_assign h t srcs = (fold (assign_from t) srcs h, JRef t)"

definition merge :: "heap \<Rightarrow> jsval \<Rightarrow> jsval \<Rightarrow> heap \<times> jsval" where
  "merge h obj1 obj2 = (case alloc h [] of (h1, t) \<Rightarrow> object_assign h1 t [obj1, obj2])"

text \<open>A value is in the store \<open>h\<close> when it is a primitive or refers to an object of \<open>h\<close>;
  \<open>is_object\<close> is the second case.\<close>

definition in_store :: "heap \<Rightarrow> jsval \<Rightarrow> bool" where
  "in_store h v = (case v of JRef r \<Rightarrow> r < length h | _ \<Rightarrow> True)"

definition is_object :: "heap \<Rightarrow> jsval \<Rightarrow> bool" where
  "is_object h v = (case v of JRef r \<Rightarrow> r < length h | _ \<Rightarrow> False)"

section \<open>Ids\<close>

text \<open>
  \<^verbatim>\<open>export type IdFunction<TProps> = (props: TProps) => string;
  export type Id<TProps> = string | IdFunction<TProps>;\<close>

  At run time the \<open>uiStateId\<close> prop holds any value (the error message of \<open>idSelector\<close>
  speaks of an undefined one), and an id function returns any value (\<open>getStringFromId\<close>
  is typed \<open>string | undefined\<close>). An id function is a pure function of the props of type
  \<open>TProps\<close>.
\<close>

datatype 'p id = IdValue jsval | IdFunction "'p \<Rightarrow> jsval"

definition idIsString :: "'p id \<Rightarrow> bool" where
  "idIsString i = (case i of IdValue (JStr s) \<Rightarrow> True | _ \<Rightarrow> False)"

definition idIsFunction :: "'p id \<Rightarrow> bool" where
  "idIsFunction i = (case i of IdFunction f \<Rightarrow> True | _ \<Rightarrow> False)"

text \<open>
  \<^verbatim>\<open>if (idIsString(id)) { return id; }
  if (idIsFunction(id)) { return id(props); }
  return undefined;\<close>
\<close>

definition getStringFromId :: "'p id \<Rightarrow> 'p \<Rightarrow> jsval" where
  "getStringFromId i props =
     (if idIsString i then (case i of IdValue v \<Rightarrow> v | IdFunction f \<Rightarrow> JUndefined)
      else if idIsFunction i then (case i of IdFunction f \<Rightarrow> f props | IdValue v \<Rightarrow> JUndefined)
      else JUndefined)"

text \<open>\<open>!id\<close>: a function is truthy.\<close>

fun id_falsy :: "'p id \<Rightarrow> bool" where
  "id_falsy (IdValue v) = falsy v"
| "id_falsy (IdFunction f) = False"

section \<open>Selectors\<close>

text \<open>A branch selector is a function of the application state; it reads the store and
  may throw.\<close>

type_synonym branch_selector = "heap \<Rightarrow> jsval \<Rightarrow> error + jsval"

text \<open>The props of a wrapped component: the two props the selectors read, and the props
  as the id function sees them (\<open>TProps\<close>). An absent \<open>uiStateId\<close> is
  \<open>IdValue JUndefined\<close>; the prop \<open>uiStateBranchSelector\<close> is the field
  \<open>uiStateBranchSelectorProp\<close> (the selector of the same name is defined below), \<open>None\<close>
  when absent. Where a function takes \<open>props\<close>, \<open>None\<close> is \<open>undefined\<close> or \<open>null\<close>
  passed for them.\<close>

record 'p props =
  uiStateId :: "'p id"
  uiStateBranchSelectorProp :: "branch_selector option"
  own :: 'p

text \<open>Modelled from the spec: \<open>DEFAULT_BRANCH_NAME\<close> of the missing \<open>constants.ts\<close>, the
  "well-known top-level key"; \<open>DefaultStoreState\<close> repeats its value as the field name
  \<open>uiState\<close>.\<close>

definition DEFAULT_BRANCH_NAME :: string where
  "DEFAULT_BRANCH_NAME = ''uiState''"

text \<open>
  \<open>createSelector\<close> of the reselect library with one and with two input selectors: the
  input selectors are applied to \<open>(state, props)\<close> in order, then the result function to
  their results; an exception of any of them leaves the selector. The library's cache
  (the last arguments and result, compared by reference) is not part of the model: every
  call computes.
\<close>

definition createSelector1 ::
  "(heap \<Rightarrow> jsval \<Rightarrow> 'q \<Rightarrow> error + 'a) \<Rightarrow> (heap \<Rightarrow> 'a \<Rightarrow> error + 'c)
    \<Rightarrow> heap \<Rightarrow> jsval \<Rightarrow> 'q \<Rightarrow> error + 'c" where
  "createSelector1 f1 g = (\<lambda>h state props.
     case f1 h state props of Inl e \<Rightarrow> Inl e | Inr a \<Rightarrow> g h a)"

definition createSelector2 ::
  "(heap \<Rightarrow> jsval \<Rightarrow> 'q \<Rightarrow> error + 'a) \<Rightarrow> (heap \<Rightarrow> jsval \<Rightarrow> 'q \<Rightarrow> error + 'b)
    \<Rightarrow> (heap \<Rightarrow> 'a \<Rightarrow> 'b \<Rightarrow> error + 'c) \<Rightarrow> heap \<Rightarrow> jsval \<Rightarrow> 'q \<Rightarrow> error + 'c" where
  "createSelector2 f1 f2 g = (\<lambda>h state props.
     case f1 h state props of Inl e \<Rightarrow> Inl e
     | Inr a \<Rightarrow> (case f2 h state props of Inl e \<Rightarrow> Inl e | Inr b \<Rightarrow> g h a b))"

definition stateSelector :: "jsval \<Rightarrow> 'q \<Rightarrow> jsval" where
  "stateSelector state props = state"

definition propsSelector :: "jsval \<Rightarrow> 'q \<Rightarrow> 'q" where
  "propsSelector x props = props"

definition defaultUIStateBranchSelector :: branch_selector where
  "defaultUIStateBranchSelector h state = get_prop h state DEFAULT_BRANCH_NAME"

text \<open>\<^verbatim>\<open>props && props.uiStateBranchSelector || defaultUIStateBranchSelector\<close>\<close>

definition uiStateBranchSelectorSelector :: "jsval \<Rightarrow> 'p props option \<Rightarrow> branch_selector" where
  "uiStateBranchSelectorSelector x props =
     (case Option.bind props uiStateBranchSelectorProp of
        None \<Rightarrow> defaultUIStateBranchSelector
      | Some selector \<Rightarrow> selector)"

definition uiStateBranchSelector :: "heap \<Rightarrow> jsval \<Rightarrow> 'p props option \<Rightarrow> error + jsval" where
  "uiStateBranchSelector =
     createSelector2
       (\<lambda>h state props. Inr (uiStateBranchSelectorSelector state props))
       (\<lambda>h state props. Inr (stateSelector state props))
       (\<lambda>h selector state.
          case selector h state of
            Inl e \<Rightarrow> Inl e
          | Inr branch \<Rightarrow> if falsy branch then Inl BranchNotSelectedError else Inr branch)"

definition uiStateComponentsSelector ::
  "heap \<Rightarrow> jsval \<Rightarrow> 'p props option \<Rightarrow> error + jsval" where
  "uiStateComponentsSelector =
     createSelector1 uiStateBranchSelector (\<lambda>h uiStateBranch. get_prop h uiStateBranch ''components'')"

text \<open>
  \<^verbatim>\<open>if (!props.uiStateId) { throw new Error(...); }
  return getStringFromId(props.uiStateId, props);\<close>
\<close>

definition idSelector :: "jsval \<Rightarrow> 'p props option \<Rightarrow> error + jsval" where
  "idSelector x props =
     (case props of
        None \<Rightarrow> Inl TypeError
      | Some p \<Rightarrow>
          if id_falsy (uiStateId p) then Inl UiStateIdNotFoundError
          else Inr (getStringFromId (uiStateId p) (own p)))"

text \<open>The line \<open>console.warn\<close> prints for a key.\<close>

definition undefined_state_warning :: "jsval \<Rightarrow> string" where
  "undefined_state_warning i =
     ''redux-ui-state uiStateSelector found undefined state for key: '' @ to_string i @ ''.''
       @ [CHR 0x0A]
       @ ''This is most often due to the value not being initialized in createReducer.''"

text \<open>The result of \<open>uiStateSelector\<close> is the selected state with the lines it warned.\<close>

definition uiStateSelector ::
  "heap \<Rightarrow> jsval \<Rightarrow> 'p props option \<Rightarrow> error + (jsval \<times> string list)" where
  "uiStateSelector =
     createSelector2 uiStateComponentsSelector (\<lambda>h. idSelector)
       (\<lambda>h components i.
          case get_prop h components (to_string i) of
            Inl e \<Rightarrow> Inl e
          | Inr uiState \<Rightarrow>
              Inr (uiState, if falsy uiState then [undefined_state_warning i] else []))"

section \<open>The setter\<close>

text \<open>Modelled from the spec: the Mutation Action and its creator \<open>setUIState\<close> of the
  missing \<open>actions.ts\<close>: \<open>{ kind: SET_STATE, payload: { id, state } }\<close>, the single
  action kind of the library. \<open>OTHER\<close> stands for the actions of the rest of the
  application.\<close>

record ui_payload =
  payload_id :: jsval
  payload_state :: jsval

datatype action = SET_UI_STATE ui_payload | OTHER string

text \<open>Modelled from the spec: the action creator \<open>setUIState\<close> of the missing
  \<open>actions.ts\<close>; it wraps the payload \<open>{ id, state }\<close> into the Mutation Action.\<close>

definition setUIState :: "ui_payload \<Rightarrow> action" where
  "setUIState p = SET_UI_STATE p"

text \<open>
  \<^verbatim>\<open>(dispatch, props) => (state) => dispatch(setUIState({
    id: idSelector(undefined, props),
    state,
  }));\<close>

  \<open>dispatch\<close> is any function of the store: it takes an action and the store's state
  and yields its result and the store's new state. The setter yields what \<open>dispatch\<close>
  returned, or the exception of \<open>idSelector\<close>, with the store's state.
\<close>

definition setUIStateSelector ::
  "(action \<Rightarrow> 's \<Rightarrow> 'r \<times> 's) \<Rightarrow> 'p props option \<Rightarrow> jsval \<Rightarrow> 's \<Rightarrow> (error + 'r) \<times> 's" where
  "setUIStateSelector dispatch props = (\<lambda>state s.
     case idSelector JUndefined props of
       Inl e \<Rightarrow> (Inl e, s)
     | Inr i \<Rightarrow>
         (case dispatch (setUIState \<lparr>payload_id = i, payload_state = state\<rparr>) s of
            (r, s') \<Rightarrow> (Inr r, s')))"

text \<open>A store that records what is dispatched to it, and returns the action as Redux does.\<close>

definition recording_dispatch :: "action \<Rightarrow> action list \<Rightarrow> action \<times> action list" where
  "recording_dispatch a log = (a, log @ [a])"

section \<open>The reducer\<close>

text \<open>Modelled from the spec: the reducer (\<open>createReducer\<close> of the missing \<open>reducer.ts\<close>).
  "When invoked with no prior branch, produce \<open>{ components: {} }\<close>. On the Mutation
  Action: locate \<open>branch.components[id]\<close>; if absent, treat the implicit prior value as
  \<open>{}\<close>; compute the new value as the shallow merge of prior value and
  \<open>action.payload.state\<close>; produce a new branch with that key's entry replaced. Must not
  mutate the input branch in place. On any other action: return the branch unchanged."\<close>

text \<open>Modelled from the spec: the branch \<open>{ components: {} }\<close> the missing reducer
  starts from.\<close>

definition initial_branch :: "heap \<Rightarrow> heap \<times> jsval" where
  "initial_branch h =
     (case alloc h [] of (h1, c) \<Rightarrow>
      case alloc h1 [(''components'', JRef c)] of (h2, b) \<Rightarrow> (h2, JRef b))"

text \<open>Modelled from the spec: the prior value of the missing reducer, \<open>{}\<close> when
  \<open>branch.components[id]\<close> is absent.\<close>

definition prior_value :: "heap \<Rightarrow> jsval \<Rightarrow> heap \<times> jsval" where
  "prior_value h found =
     (if found = JUndefined then (case alloc h [] of (h1, r) \<Rightarrow> (h1, JRef r)) else (h, found))"

text \<open>Modelled from the spec: "a new branch with that key's entry replaced" of the missing
  reducer: a new object with the properties of \<open>ob\<close> and \<open>v\<close> under \<open>k\<close>; \<open>ob\<close> is not
  written.\<close>

definition replace_entry :: "heap \<Rightarrow> jsval \<Rightarrow> string \<Rightarrow> jsval \<Rightarrow> heap \<times> jsval" where
  "replace_entry h ob k v =
     (case alloc h (AList.update k v (AList.clearjunk (own_props h ob))) of
        (h1, r) \<Rightarrow> (h1, JRef r))"

text \<open>Modelled from the spec: \<open>reduce(branch | undefined, action)\<close> of the missing
  \<open>reducer.ts\<close>, with the \<open>merge\<close> of \<open>utils.ts\<close> for the shallow merge.\<close>

definition reduce :: "heap \<Rightarrow> jsval \<Rightarrow> action \<Rightarrow> error + (heap \<times> jsval)" where
  "reduce h branch a =
     (case (if branch = JUndefined then initial_branch h else (h, branch)) of (h0, b) \<Rightarrow>
      case a of
        OTHER x \<Rightarrow> Inr (h0, b)
      | SET_UI_STATE p \<Rightarrow>
          (case get_prop h0 b ''components'' of
             Inl e \<Rightarrow> Inl e
           | Inr components \<Rightarrow>
               (case get_prop h0 components (to_string (payload_id p)) of
                  Inl e \<Rightarrow> Inl e
                | Inr found \<Rightarrow>
                    (case prior_value h0 found of (h1, prior) \<Rightarrow>
                     case merge h1 prior (payload_state p) of (h2, entry) \<Rightarrow>
                     case replace_entry h2 components (to_string (payload_id p)) entry of
                       (h3, components') \<Rightarrow>
                     Inr (replace_entry h3 b ''components'' components')))))"

text \<open>A store without dangling references.\<close>

definition wf_heap :: "heap \<Rightarrow> bool" where
  "wf_heap h = (\<forall>ob \<in> set h. \<forall>v \<in> snd ` set ob. in_store h v)"

section \<open>Example inputs\<close>

text \<open>An application state with the branch at its default place, one component
  \<open>counter-1\<close> with state \<open>{ count: 0, label: "clicks" }\<close>, and a partial update
  \<open>{ count: 1 }\<close>. The objects are at the addresses 0 to 4 in this order: the state of
  \<open>counter-1\<close>, the components map, the branch, the application state, the update.\<close>

definition ex_heap :: heap where
  "ex_heap =
     [[(''count'', JNum 0), (''label'', JStr ''clicks'')],
      [(''counter-1'', JRef 0)],
      [(''components'', JRef 1)],
      [(''uiState'', JRef 2), (''todos'', JNull)],
      [(''count'', JNum 1)]]"

definition ex_state :: jsval where
  "ex_state = JRef 3"

definition ex_partial :: jsval where
  "ex_partial = JRef 4"

text \<open>The id function \<open>props => props.key\<close>, on props given by value.\<close>

definition key_of_props :: "obj \<Rightarrow> jsval" where
  "key_of_props p = (case lookup p ''key'' of None \<Rightarrow> JUndefined | Some v \<Rightarrow> v)"

definition ex_props :: "obj props" where
  "ex_props = \<lparr>uiStateId = IdValue (JStr ''counter-1''), uiStateBranchSelectorProp = None, own = []\<rparr>"

definition ex_props_key :: "obj props" where
  "ex_props_key = \<lparr>uiStateId = IdFunction key_of_props, uiStateBranchSelectorProp = None, own = []\<rparr>"

definition ex_props_empty_id :: "obj props" where
  "ex_props_empty_id = \<lparr>uiStateId = IdValue (JStr []), uiStateBranchSelectorProp = None, own = []\<rparr>"


definition ex_props_empty_key :: "obj props" where
  "ex_props_empty_key =
     \<lparr>uiStateId = IdFunction key_of_props, uiStateBranchSelectorProp = None, own = [(''key'', JStr [])]\<rparr>"

text \<open>A branch selector that looks in the wrong place of the state, and props that
  supply it.\<close>

definition todos_branch_selector :: branch_selector where
  "todos_branch_selector h state = get_prop h state ''todos''"

definition ex_props_todos :: "obj props" where
  "ex_props_todos =
     \<lparr>uiStateId = IdValue (JStr ''counter-1''),
      uiStateBranchSelectorProp = Some todos_branch_selector, own = []\<rparr>"

section \<open>Facts about the store and \<open>merge\<close>\<close>




lemma heap_get_append_old: "r < length h \<Longrightarrow> heap_get (h @ hs) r = heap_get h r"
  by (simp add: heap_get_def nth_append)

lemma own_props_append: "in_store h v \<Longrightarrow> own_props (h @ hs) v = own_props h v"
  by (cases v) (simp_all add: in_store_def heap_get_append_old)

lemma own_props_update_other:
  "in_store h v \<Longrightarrow> own_props ((h @ [ob])[length h := ob']) v = own_props h v"
  by (cases v) (simp_all add: in_store_def heap_get_def nth_append)

lemma merge_eq:
  assumes "in_store h obj1" and "in_store h obj2"
  shows "merge h obj1 obj2 =
    (h @ [assign_props (own_props h obj2) (assign_props (own_props h obj1) [])], JRef (length h))"
  using assms
  by (simp add: merge_def alloc_def object_assign_def assign_from_def own_props_append
      own_props_update_other heap_get_def)

lemma is_object_in_store: "is_object h v \<Longrightarrow> in_store h v"
  by (cases v) (simp_all add: is_object_def in_store_def)

lemma is_object_ref: "is_object h v \<Longrightarrow> \<exists>r. v = JRef r \<and> r < length h"
  by (cases v) (simp_all add: is_object_def)


lemma in_store_append: "in_store h v \<Longrightarrow> in_store (h @ hs) v"
  by (cases v) (simp_all add: in_store_def)

lemma lookup_replaced:
  "lookup (AList.update k v (AList.clearjunk al)) k' = (if k' = k then Some v else lookup al k')"
  by (simp add: lookup_def update_conv' map_of_clearjunk)

lemma replace_entry_eq:
  "replace_entry h ob k v =
     (h @ [AList.update k v (AList.clearjunk (own_props h ob))], JRef (length h))"
  by (simp add: replace_entry_def alloc_def)

lemma prior_value_cases:
  assumes "in_store h found"
  shows "\<exists>hs prior. prior_value h found = (h @ hs, prior) \<and> in_store (h @ hs) prior"
proof (cases "found = JUndefined")
  case True
  then have "prior_value h found = (h @ [[]], JRef (length h))"
    by (simp add: prior_value_def alloc_def)
  moreover have "in_store (h @ [[]]) (JRef (length h))"
    by (simp add: in_store_def)
  ultimately show ?thesis by blast
next
  case False
  then have "prior_value h found = (h @ [], found)"
    by (simp add: prior_value_def)
  moreover from assms have "in_store (h @ []) found" by simp
  ultimately show ?thesis by blast
qed

lemma wf_heap_lookup:
  assumes "wf_heap h" and "r < length h" and "lookup (heap_get h r) k = Some v"
  shows "in_store h v"
proof -
  from assms(2,3) have "(k, v) \<in> set (h ! r)"
    by (simp add: heap_get_def lookup_def map_of_SomeD)
  then have "v \<in> snd ` set (h ! r)" by force
  with assms(1,2) show ?thesis by (auto simp: wf_heap_def)
qed

lemma heap_get_last: "heap_get (h @ [ob]) (length h) = ob"
  by (simp add: heap_get_def)


lemma ex_components:
  "uiStateBranchSelectorProp p = None \<Longrightarrow>
   uiStateComponentsSelector ex_heap ex_state (Some p) = Inr (JRef 1)"
  by (simp add: uiStateComponentsSelector_def createSelector1_def uiStateBranchSelector_def
      createSelector2_def stateSelector_def uiStateBranchSelectorSelector_def
      defaultUIStateBranchSelector_def DEFAULT_BRANCH_NAME_def ex_state_def ex_heap_def
      heap_get_def lookup_def)

section \<open>Claims about \<open>merge\<close>\<close>



text \<open>C10: for every pair of input objects, \<open>merge\<close> returns a reference to a newly
  allocated object (not an object of the store before the call, so distinct from both
  inputs) and leaves both inputs, and every other object of the store, as they were.\<close>

theorem merge_fresh_object:
  assumes "is_object h obj1" and "is_object h obj2"
  shows "\<exists>h' r. merge h obj1 obj2 = (h', JRef r) \<and>
    \<not> is_object h (JRef r) \<and> is_object h' (JRef r) \<and>
    JRef r \<noteq> obj1 \<and> JRef r \<noteq> obj2 \<and>
    own_props h' obj1 = own_props h obj1 \<and> own_props h' obj2 = own_props h obj2 \<and>
    (\<forall>r' < length h. heap_get h' r' = heap_get h r')"
proof -
  let ?ob = "assign_props (own_props h obj2) (assign_props (own_props h obj1) [])"
  have m: "merge h obj1 obj2 = (h @ [?ob], JRef (length h))"
    using assms by (simp add: merge_eq is_object_in_store)
  have f: "\<not> is_object h (JRef (length h))" "is_object (h @ [?ob]) (JRef (length h))"
    by (simp_all add: is_object_def)
  have d: "JRef (length h) \<noteq> obj1" "JRef (length h) \<noteq> obj2"
    using assms by (auto simp: is_object_def)
  have u: "own_props (h @ [?ob]) obj1 = own_props h obj1"
      "own_props (h @ [?ob]) obj2 = own_props h obj2"
    using assms by (simp_all add: own_props_append is_object_in_store)
  have o: "\<forall>r' < length h. heap_get (h @ [?ob]) r' = heap_get h r'"
    by (simp add: heap_get_append_old)
  show ?thesis
    unfolding m using f d u o by blast
qed

theorem merge_fresh_object_witness:
  "is_object ex_heap (JRef 0) \<and> is_object ex_heap ex_partial \<and>
   (\<exists>h' r. merge ex_heap (JRef 0) ex_partial = (h', JRef r) \<and> r \<noteq> 0 \<and> JRef r \<noteq> ex_partial \<and>
      heap_get h' 0 = heap_get ex_heap 0 \<and> heap_get h' 4 = heap_get ex_heap 4)"
proof -
  have s: "is_object ex_heap (JRef 0)" and p: "is_object ex_heap ex_partial"
    by (simp_all add: is_object_def ex_heap_def ex_partial_def)
  have l: "0 < length ex_heap" "4 < length ex_heap"
    by (simp_all add: ex_heap_def)
  from merge_fresh_object [OF s p] l show ?thesis
    using s p by blast
qed

section \<open>Claims about the reducer\<close>

text \<open>C6: for every branch in a store without dangling references, applying a Mutation
  Action for an id leaves the entry of every other key of the components map as it was
  (the same value, for an object the same reference, and no object of the store before
  the call is written), and does not replace the branch wholesale: the new branch has
  the old branch's other properties, its components map differs from the old one in the
  entry of that id only, and that entry is a newly created object.\<close>

theorem reduce_other_entries_unchanged:
  assumes wf: "wf_heap h"
    and br: "is_object h branch"
    and gc: "get_prop h branch ''components'' = Inr components"
    and co: "is_object h components"
    and st: "in_store h (payload_state p)"
  shows "\<exists>h' branch' components' entry.
    reduce h branch (SET_UI_STATE p) = Inr (h', branch') \<and>
    get_prop h' branch' ''components'' = Inr components' \<and>
    (\<forall>k. k \<noteq> to_string (payload_id p) \<longrightarrow> get_prop h' components' k = get_prop h components k) \<and>
    get_prop h' components' (to_string (payload_id p)) = Inr entry \<and>
    is_object h' entry \<and> \<not> is_object h entry \<and>
    (\<forall>k. k \<noteq> ''components'' \<longrightarrow> get_prop h' branch' k = get_prop h branch k) \<and>
    (\<forall>r < length h. heap_get h' r = heap_get h r)"
proof -
  let ?key = "to_string (payload_id p)"
  from br obtain b where b: "branch = JRef b" "b < length h"
    using is_object_ref by blast
  from co obtain c where c: "components = JRef c" "c < length h"
    using is_object_ref by blast
  define found where "found = (case lookup (heap_get h c) ?key of None \<Rightarrow> JUndefined | Some v \<Rightarrow> v)"
  have gf: "get_prop h components ?key = Inr found"
    by (simp add: c found_def)
  have "in_store h found"
  proof (cases "lookup (heap_get h c) ?key")
    case None
    then show ?thesis by (simp add: found_def in_store_def)
  next
    case (Some v)
    with wf c(2) have "in_store h v" by (rule wf_heap_lookup)
    with Some show ?thesis by (simp add: found_def)
  qed
  then obtain hs prior where pv: "prior_value h found = (h @ hs, prior)"
    and pi: "in_store (h @ hs) prior"
    using prior_value_cases by blast
  let ?h1 = "h @ hs"
  define ob where "ob = assign_props (own_props ?h1 (payload_state p)) (assign_props (own_props ?h1 prior) [])"
  have me: "merge ?h1 prior (payload_state p) = (?h1 @ [ob], JRef (length ?h1))"
    using pi st by (simp add: merge_eq in_store_append ob_def)
  let ?h2 = "?h1 @ [ob]"
  define cobj where "cobj = AList.update ?key (JRef (length ?h1)) (AList.clearjunk (heap_get h c))"
  have oc: "own_props ?h2 components = heap_get h c"
    using c by (simp add: heap_get_def nth_append)
  have r1: "replace_entry ?h2 components ?key (JRef (length ?h1)) = (?h2 @ [cobj], JRef (length ?h2))"
    by (simp only: replace_entry_eq oc cobj_def)
  let ?h3 = "?h2 @ [cobj]"
  define bobj where "bobj = AList.update ''components'' (JRef (length ?h2)) (AList.clearjunk (heap_get h b))"
  have obr: "own_props ?h3 branch = heap_get h b"
    using b by (simp add: heap_get_def nth_append)
  have r2: "replace_entry ?h3 branch ''components'' (JRef (length ?h2)) = (?h3 @ [bobj], JRef (length ?h3))"
    by (simp only: replace_entry_eq obr bobj_def)
  let ?h4 = "?h3 @ [bobj]"
  have nb: "branch \<noteq> JUndefined"
    using b(1) by simp
  have red: "reduce h branch (SET_UI_STATE p) = Inr (?h4, JRef (length ?h3))"
    by (simp only: reduce_def nb if_False prod.case action.case sum.case gc gf pv me r1 r2)
  have gb: "heap_get ?h4 (length ?h3) = bobj"
    by (rule heap_get_last)
  have gco: "heap_get ?h4 (length ?h2) = cobj"
    by (simp add: heap_get_def nth_append)
  have 1: "get_prop ?h4 (JRef (length ?h3)) ''components'' = Inr (JRef (length ?h2))"
    by (simp only: get_prop.simps gb) (simp add: bobj_def lookup_replaced)
  have 2: "\<forall>k. k \<noteq> ?key \<longrightarrow> get_prop ?h4 (JRef (length ?h2)) k = get_prop h components k"
    by (simp only: get_prop.simps gco c(1)) (simp add: cobj_def lookup_replaced)
  have 3: "get_prop ?h4 (JRef (length ?h2)) ?key = Inr (JRef (length ?h1))"
    by (simp only: get_prop.simps gco) (simp add: cobj_def lookup_replaced)
  have 4: "is_object ?h4 (JRef (length ?h1))" "\<not> is_object h (JRef (length ?h1))"
    by (simp_all add: is_object_def)
  have 5: "\<forall>k. k \<noteq> ''components'' \<longrightarrow> get_prop ?h4 (JRef (length ?h3)) k = get_prop h branch k"
    by (simp only: get_prop.simps gb b(1)) (simp add: bobj_def lookup_replaced)
  have 6: "\<forall>r < length h. heap_get ?h4 r = heap_get h r"
    by (simp add: heap_get_def nth_append)
  from red 1 2 3 4 5 6 show ?thesis by blast
qed

text \<open>A first mutation for \<open>counter-2\<close> leaves the entry of \<open>counter-1\<close> and its
  state object alone.\<close>

theorem reduce_other_entries_unchanged_witness:
  "wf_heap ex_heap \<and> is_object ex_heap (JRef 2) \<and>
   get_prop ex_heap (JRef 2) ''components'' = Inr (JRef 1) \<and>
   is_object ex_heap (JRef 1) \<and> in_store ex_heap ex_partial \<and>
   (\<exists>h' branch' components'.
      reduce ex_heap (JRef 2)
        (SET_UI_STATE \<lparr>payload_id = JStr ''counter-2'', payload_state = ex_partial\<rparr>)
        = Inr (h', branch') \<and>
      get_prop h' branch' ''components'' = Inr components' \<and>
      get_prop h' components' ''counter-1'' = Inr (JRef 0) \<and>
      heap_get h' 0 = [(''count'', JNum 0), (''label'', JStr ''clicks'')])"
proof -
  let ?p = "\<lparr>payload_id = JStr ''counter-2'', payload_state = ex_partial\<rparr>"
  have wf: "wf_heap ex_heap"
    by (simp add: wf_heap_def ex_heap_def in_store_def)
  have br: "is_object ex_heap (JRef 2)" and co: "is_object ex_heap (JRef 1)"
    by (simp_all add: is_object_def ex_heap_def)
  have gc: "get_prop ex_heap (JRef 2) ''components'' = Inr (JRef 1)"
    by (simp add: ex_heap_def heap_get_def lookup_def)
  have st: "in_store ex_heap (payload_state ?p)"
    by (simp add: in_store_def ex_heap_def ex_partial_def)
  have k: "''counter-1'' \<noteq> to_string (payload_id ?p)"
    by simp
  have o: "get_prop ex_heap (JRef 1) ''counter-1'' = Inr (JRef 0)"
    by (simp add: ex_heap_def heap_get_def lookup_def)
  have z: "0 < length ex_heap" "heap_get ex_heap 0 = [(''count'', JNum 0), (''label'', JStr ''clicks'')]"
    by (simp_all add: ex_heap_def heap_get_def)
  from reduce_other_entries_unchanged [OF wf br gc co st]
  obtain h' branch' components' entry where all:
    "reduce ex_heap (JRef 2) (SET_UI_STATE ?p) = Inr (h', branch') \<and>
     get_prop h' branch' ''components'' = Inr components' \<and>
     (\<forall>k. k \<noteq> to_string (payload_id ?p) \<longrightarrow>
        get_prop h' components' k = get_prop ex_heap (JRef 1) k) \<and>
     get_prop h' components' (to_string (payload_id ?p)) = Inr entry \<and>
     is_object h' entry \<and> \<not> is_object ex_heap entry \<and>
     (\<forall>k. k \<noteq> ''components'' \<longrightarrow> get_prop h' branch' k = get_prop ex_heap (JRef 2) k) \<and>
     (\<forall>r < length ex_heap. heap_get h' r = heap_get ex_heap r)"
    by (elim exE)
  note r = all [THEN conjunct1]
  note c = all [THEN conjunct2, THEN conjunct1]
  note e = all [THEN conjunct2, THEN conjunct2, THEN conjunct1]
  note u = all [THEN conjunct2, THEN conjunct2, THEN conjunct2, THEN conjunct2, THEN conjunct2,
      THEN conjunct2, THEN conjunct2]
  have "get_prop h' components' ''counter-1'' = get_prop ex_heap (JRef 1) ''counter-1''"
    by (rule e [THEN spec, THEN mp, OF k])
  with o have 1: "get_prop h' components' ''counter-1'' = Inr (JRef 0)"
    by (simp only:)
  have "heap_get h' 0 = heap_get ex_heap 0"
    by (rule u [THEN spec, THEN mp, OF z(1)])
  with z(2) have 2: "heap_get h' 0 = [(''count'', JNum 0), (''label'', JStr ''clicks'')]"
    by (simp only:)
  from r c 1 2 have "\<exists>h' branch' components'.
      reduce ex_heap (JRef 2) (SET_UI_STATE ?p) = Inr (h', branch') \<and>
      get_prop h' branch' ''components'' = Inr components' \<and>
      get_prop h' components' ''counter-1'' = Inr (JRef 0) \<and>
      heap_get h' 0 = [(''count'', JNum 0), (''label'', JStr ''clicks'')]"
    by blast
  moreover have "in_store ex_heap ex_partial"
    using st by (simp only: ui_payload.simps)
  ultimately show ?thesis using wf br gc co by (intro conjI)
qed

section \<open>Claims about id resolution\<close>

text \<open>C2: for every props value, \<open>getStringFromId\<close> applied to a string id returns that
  string unchanged; applied to a function id it returns the result of calling the
  function with the props; applied to any other value it returns \<open>undefined\<close>.\<close>

theorem getStringFromId_resolves:
  "getStringFromId (IdValue (JStr s)) props = JStr s \<and>
   getStringFromId (IdFunction f) props = f props \<and>
   ((\<forall>s. v \<noteq> JStr s) \<longrightarrow> getStringFromId (IdValue v) props = JUndefined)"
  by (cases v) (simp_all add: getStringFromId_def idIsString_def idIsFunction_def)

theorem getStringFromId_resolves_witness:
  "(\<forall>s. JNum 7 \<noteq> JStr s) \<and>
   getStringFromId (IdValue (JNum 7)) ([] :: obj) = JUndefined \<and>
   getStringFromId (IdValue (JStr ''counter-1'')) ([] :: obj) = JStr ''counter-1'' \<and>
   getStringFromId (IdFunction key_of_props) [(''key'', JStr ''x'')] = JStr ''x''"
proof -
  have n: "\<forall>s. JNum 7 \<noteq> JStr s" by simp
  have k: "key_of_props [(''key'', JStr ''x'')] = JStr ''x''"
    by (simp add: key_of_props_def lookup_def)
  from getStringFromId_resolves [of "''counter-1''" "[]" key_of_props "JNum 7"]
    getStringFromId_resolves [of "''counter-1''" "[(''key'', JStr ''x'')]" key_of_props "JNum 7"]
  show ?thesis using n k by simp
qed

text \<open>C9: \<open>idSelector\<close> throws exactly when the \<open>uiStateId\<close> prop is absent or falsy
  (there are no props, or the prop is \<open>undefined\<close>, \<open>null\<close>, \<open>false\<close>, \<open>0\<close> or the empty
  string), so the literal id \<open>""\<close> throws; with a function id it does not throw, whatever
  the function returns: a result \<open>undefined\<close> or \<open>""\<close> is returned as it is.\<close>

theorem idSelector_throws_iff:
  "(isl (idSelector x props) \<longleftrightarrow> (\<forall>p. props = Some p \<longrightarrow> id_falsy (uiStateId p))) \<and>
   (\<forall>p. props = Some p \<and> uiStateId p = IdValue (JStr []) \<longrightarrow>
        idSelector x props = Inl UiStateIdNotFoundError) \<and>
   (\<forall>p f. props = Some p \<and> uiStateId p = IdFunction f \<longrightarrow>
        idSelector x props = Inr (f (own p)))"
  by (cases props)
    (simp_all add: idSelector_def getStringFromId_def idIsString_def idIsFunction_def)

theorem idSelector_throws_iff_witness:
  "uiStateId ex_props_empty_id = IdValue (JStr []) \<and>
   idSelector JUndefined (Some ex_props_empty_id) = Inl UiStateIdNotFoundError \<and>
   uiStateId ex_props_key = IdFunction key_of_props \<and>
   key_of_props (own ex_props_key) = JUndefined \<and>
   idSelector JUndefined (Some ex_props_key) = Inr JUndefined \<and>
   uiStateId ex_props_empty_key = IdFunction key_of_props \<and>
   key_of_props (own ex_props_empty_key) = JStr [] \<and>
   idSelector JUndefined (Some ex_props_empty_key) = Inr (JStr [])"
proof -
  have a: "uiStateId ex_props_empty_id = IdValue (JStr [])"
    by (simp add: ex_props_empty_id_def)
  have b: "uiStateId ex_props_key = IdFunction key_of_props"
    and b': "key_of_props (own ex_props_key) = JUndefined"
    by (simp_all add: ex_props_key_def key_of_props_def lookup_def)
  have c: "uiStateId ex_props_empty_key = IdFunction key_of_props"
    and c': "key_of_props (own ex_props_empty_key) = JStr []"
    by (simp_all add: ex_props_empty_key_def key_of_props_def lookup_def)
  from idSelector_throws_iff [of JUndefined "Some ex_props_empty_id"] a
  have 1: "idSelector JUndefined (Some ex_props_empty_id) = Inl UiStateIdNotFoundError"
    by blast
  from idSelector_throws_iff [of JUndefined "Some ex_props_key"] b b'
  have 2: "idSelector JUndefined (Some ex_props_key) = Inr JUndefined"
    by simp
  from idSelector_throws_iff [of JUndefined "Some ex_props_empty_key"] c c'
  have 3: "idSelector JUndefined (Some ex_props_empty_key) = Inr (JStr [])"
    by simp
  show ?thesis using a b b' c c' 1 2 3 by simp
qed

section \<open>Claims about the selectors\<close>

text \<open>C8: for every props value, \<open>uiStateBranchSelectorSelector\<close> returns the branch
  selector supplied in the props whenever there is one, and the default selector
  otherwise (no props, or props without the selector); the result is one of the two,
  never a combination.\<close>

theorem uiStateBranchSelectorSelector_override:
  "(\<forall>p f. props = Some p \<and> uiStateBranchSelectorProp p = Some f \<longrightarrow>
       uiStateBranchSelectorSelector x props = f) \<and>
   (props = None \<or> (\<exists>p. props = Some p \<and> uiStateBranchSelectorProp p = None) \<longrightarrow>
       uiStateBranchSelectorSelector x props = defaultUIStateBranchSelector)"
  by (auto simp: uiStateBranchSelectorSelector_def)

theorem uiStateBranchSelectorSelector_override_witness:
  "uiStateBranchSelectorProp ex_props_todos = Some todos_branch_selector \<and>
   uiStateBranchSelectorSelector ex_state (Some ex_props_todos) = todos_branch_selector \<and>
   uiStateBranchSelectorProp ex_props = None \<and>
   uiStateBranchSelectorSelector ex_state (Some ex_props) = defaultUIStateBranchSelector \<and>
   uiStateBranchSelectorSelector ex_state (None :: obj props option) = defaultUIStateBranchSelector"
proof -
  have a: "uiStateBranchSelectorProp ex_props_todos = Some todos_branch_selector"
    by (simp add: ex_props_todos_def)
  have b: "uiStateBranchSelectorProp ex_props = None"
    by (simp add: ex_props_def)
  from uiStateBranchSelectorSelector_override [of "Some ex_props_todos" ex_state] a
  have 1: "uiStateBranchSelectorSelector ex_state (Some ex_props_todos) = todos_branch_selector"
    by blast
  from uiStateBranchSelectorSelector_override [of "Some ex_props" ex_state] b
  have 2: "uiStateBranchSelectorSelector ex_state (Some ex_props) = defaultUIStateBranchSelector"
    by blast
  from uiStateBranchSelectorSelector_override [of "None :: obj props option" ex_state]
  have 3: "uiStateBranchSelectorSelector ex_state (None :: obj props option) = defaultUIStateBranchSelector"
    by blast
  show ?thesis using a b 1 2 3 by simp
qed

text \<open>C3: for every state tree and props, when the chosen branch selector applied to the
  state yields no branch (a falsy value: \<open>undefined\<close>, \<open>null\<close>, ...),
  \<open>uiStateBranchSelector\<close> throws the configuration error instead of returning an empty
  or default branch; when it yields a branch, that branch is returned.\<close>

theorem uiStateBranchSelector_throws_or_returns:
  assumes "uiStateBranchSelectorSelector state props h state = Inr b"
  shows "(falsy b \<longrightarrow> uiStateBranchSelector h state props = Inl BranchNotSelectedError) \<and>
         (\<not> falsy b \<longrightarrow> uiStateBranchSelector h state props = Inr b)"
  using assms by (simp add: uiStateBranchSelector_def createSelector2_def stateSelector_def)

theorem uiStateBranchSelector_throws_or_returns_witness:
  "uiStateBranchSelectorSelector ex_state (Some ex_props_todos) ex_heap ex_state = Inr JNull \<and>
   falsy JNull \<and>
   uiStateBranchSelector ex_heap ex_state (Some ex_props_todos) = Inl BranchNotSelectedError \<and>
   uiStateBranchSelectorSelector ex_state (Some ex_props) ex_heap ex_state = Inr (JRef 2) \<and>
   \<not> falsy (JRef 2) \<and>
   uiStateBranchSelector ex_heap ex_state (Some ex_props) = Inr (JRef 2)"
proof -
  have a: "uiStateBranchSelectorSelector ex_state (Some ex_props_todos) ex_heap ex_state = Inr JNull"
    by (simp add: uiStateBranchSelectorSelector_def ex_props_todos_def todos_branch_selector_def
        ex_state_def ex_heap_def heap_get_def lookup_def)
  have b: "uiStateBranchSelectorSelector ex_state (Some ex_props) ex_heap ex_state = Inr (JRef 2)"
    by (simp add: uiStateBranchSelectorSelector_def ex_props_def defaultUIStateBranchSelector_def
        DEFAULT_BRANCH_NAME_def ex_state_def ex_heap_def heap_get_def lookup_def)
  from uiStateBranchSelector_throws_or_returns [OF a] uiStateBranchSelector_throws_or_returns [OF b]
  show ?thesis using a b by simp
qed



section \<open>Claims about unresolved ids and the setter\<close>

text \<open>C5, as stated, fails: with the id function \<open>props => props.key\<close> and props without
  \<open>key\<close> the id resolves to \<open>undefined\<close>, and neither the read nor the write throws. The
  read looks up the key \<open>"undefined"\<close>, warns and returns \<open>undefined\<close>; the setter
  dispatches a Mutation Action whose id is \<open>undefined\<close>.\<close>

theorem unresolved_id_proceeds_counterexample:
  "getStringFromId (uiStateId ex_props_key) (own ex_props_key) = JUndefined \<and>
   uiStateSelector ex_heap ex_state (Some ex_props_key)
     = Inr (JUndefined, [undefined_state_warning JUndefined]) \<and>
   setUIStateSelector recording_dispatch (Some ex_props_key) ex_partial []
     = (Inr (SET_UI_STATE \<lparr>payload_id = JUndefined, payload_state = ex_partial\<rparr>),
        [SET_UI_STATE \<lparr>payload_id = JUndefined, payload_state = ex_partial\<rparr>])"
  by (simp add: getStringFromId_def idIsString_def idIsFunction_def ex_props_key_def
      key_of_props_def lookup_def uiStateSelector_def createSelector2_def createSelector1_def
      uiStateComponentsSelector_def uiStateBranchSelector_def stateSelector_def
      uiStateBranchSelectorSelector_def defaultUIStateBranchSelector_def DEFAULT_BRANCH_NAME_def
      idSelector_def ex_state_def ex_heap_def heap_get_def setUIStateSelector_def
      recording_dispatch_def setUIState_def)

text \<open>C5 (amended): for every read (per-id selection) and every write (setter
  invocation), if the \<open>uiStateId\<close> prop is absent or falsy (\<open>undefined\<close>, \<open>null\<close>, the
  empty string, ...) then an error is thrown synchronously at that point: \<open>idSelector\<close>
  throws the configuration error, the read throws (that error, once the components map
  is selected; the error of the branch selection otherwise) and the setter throws it
  without dispatching anything.\<close>

theorem falsy_uiStateId_throws:
  assumes "id_falsy (uiStateId p)"
  shows "idSelector x (Some p) = Inl UiStateIdNotFoundError \<and>
    isl (uiStateSelector h state (Some p)) \<and>
    (\<forall>c. uiStateComponentsSelector h state (Some p) = Inr c \<longrightarrow>
         uiStateSelector h state (Some p) = Inl UiStateIdNotFoundError) \<and>
    setUIStateSelector dispatch (Some p) partial s = (Inl UiStateIdNotFoundError, s)"
  using assms
  by (simp add: idSelector_def uiStateSelector_def createSelector2_def setUIStateSelector_def
      split: sum.splits)

theorem falsy_uiStateId_throws_witness:
  "id_falsy (uiStateId ex_props_empty_id) \<and>
   uiStateComponentsSelector ex_heap ex_state (Some ex_props_empty_id) = Inr (JRef 1) \<and>
   uiStateSelector ex_heap ex_state (Some ex_props_empty_id) = Inl UiStateIdNotFoundError \<and>
   setUIStateSelector recording_dispatch (Some ex_props_empty_id) ex_partial []
     = (Inl UiStateIdNotFoundError, [])"
proof -
  have f: "id_falsy (uiStateId ex_props_empty_id)"
    by (simp add: ex_props_empty_id_def)
  have c: "uiStateComponentsSelector ex_heap ex_state (Some ex_props_empty_id) = Inr (JRef 1)"
    by (simp add: ex_components ex_props_empty_id_def)
  from falsy_uiStateId_throws [OF f, of JUndefined ex_heap ex_state recording_dispatch ex_partial "[]"] c
  show ?thesis using f by simp
qed



end
